theory Spec2Isabelle
  imports Main
begin

section \<open>Memory, iterators and the collaborators of the generic layer\<close>

text \<open>
  The generic binary search of Thrust (\<^verbatim>\<open>thrust/system/detail/generic/binary_search.inl\<close>)
  works on iterators: it reads the sorted sequence and the queries through them and
  writes the results through an output iterator. Several iterators may point into the
  same storage, so the model keeps one explicit store: an iterator is an address, a
  memory is a map from addresses to cells, and every function that writes takes the
  memory and returns the new one together with its result.

  A cell holds a value of the one type \<open>'v\<close>, which stands for every value type of a
  call: the element type of the sequence and the type of the queries, which the source
  does not require to be the same, share it. Where C++ converts a value from one of
  these types to another, the model applies a conversion function that the call is
  given. A result of type \<open>'r\<close> (an offset or a truth value) is stored through a
  conversion \<open>enc\<close>, which stands for the conversion C++ applies in the assignment to
  the output reference, and a cell is read back at the result type through \<open>dec\<close> (the
  typed read \<^verbatim>\<open>d_output[0]\<close>).

  The source's parameter names \<^verbatim>\<open>begin\<close>, \<^verbatim>\<open>end\<close>, \<^verbatim>\<open>value\<close> and \<^verbatim>\<open>comp\<close> are written
  \<open>bgn\<close>, \<open>fin\<close>, \<open>val\<close> and \<open>cmp\<close>. Offsets (\<^verbatim>\<open>difference_type\<close>) are natural numbers: every
  offset computed here lies between 0 and the length of the sequence.
\<close>

type_synonym addr = nat

record 'v memory =
  cells :: "addr \<Rightarrow> 'v"
  brk :: addr

text \<open>\<^verbatim>\<open>thrust::detail::backend::dereference(iter)\<close>: the cell an iterator points to.\<close>

definition dereference :: "addr \<Rightarrow> 'v memory \<Rightarrow> 'v" where
  "dereference iter mem = cells mem iter"

text \<open>The assignment \<^verbatim>\<open>*iter = x\<close> through a reference.\<close>

definition assign :: "addr \<Rightarrow> 'v \<Rightarrow> 'v memory \<Rightarrow> 'v memory" where
  "assign iter x mem = mem\<lparr>cells := (cells mem)(iter := x)\<rparr>"

text \<open>
  Modelled from the spec: \<^verbatim>\<open>thrust::distance\<close> (\<^verbatim>\<open>thrust/distance.h\<close> is not among the
  sources): the number of steps from the first iterator of a range to its last.
\<close>

definition distance :: "addr \<Rightarrow> addr \<Rightarrow> nat" where
  "distance first lst = lst - first"

text \<open>
  Modelled from the spec: \<^verbatim>\<open>thrust::less<T>\<close> (\<^verbatim>\<open>thrust/functional.h\<close> is not among the
  sources), the default ordering provider: the natural strict less-than relation of the
  value type \<^verbatim>\<open>T\<close> it is instantiated at, here \<open>'q\<close>. Both parameters of its call
  operator have the type \<^verbatim>\<open>T\<close>, so an argument of another type is converted to \<^verbatim>\<open>T\<close>
  before the two are compared; \<open>to_T\<close> is that conversion of the value a cell holds.
\<close>

definition thrust_less :: "('v \<Rightarrow> 'q::ord) \<Rightarrow> 'v \<Rightarrow> 'v \<Rightarrow> bool" where
  "thrust_less to_T a b \<longleftrightarrow> to_T a < to_T b"

text \<open>
  Modelled from the spec: the single-position search primitive
  \<^verbatim>\<open>thrust::system::detail::generic::scalar::lower_bound\<close> and \<^verbatim>\<open>upper_bound\<close>
  (\<^verbatim>\<open>thrust/system/detail/generic/scalar/binary_search.h\<close> is not among the sources).
  The spec gives the contract of the primitive on a sorted range and no algorithm: the
  smallest position with a stated property, and the sequence length if there is no such
  position. \<open>first_position P len first\<close> is that position for the property \<open>P\<close>: the
  first of the \<open>len\<close> positions from \<open>first\<close> on that satisfies \<open>P\<close>, and the position
  past them if none does.
\<close>

primrec first_position :: "(addr \<Rightarrow> bool) \<Rightarrow> nat \<Rightarrow> addr \<Rightarrow> addr" where
  "first_position P 0 first = first"
| "first_position P (Suc len) first =
     (if P first then first else first_position P len (Suc first))"

text \<open>
  Modelled from the spec: \<^verbatim>\<open>scalar::lower_bound\<close>, by its contract: the smallest
  position \<open>i\<close> such that \<open>\<not> cmp (Sequence[i]) query\<close>, the first element not ordered
  before the query; the end of the range if there is none.
\<close>

definition scalar_lower_bound ::
  "addr \<Rightarrow> addr \<Rightarrow> 'v \<Rightarrow> ('v \<Rightarrow> 'v \<Rightarrow> bool) \<Rightarrow> 'v memory \<Rightarrow> addr" where
  "scalar_lower_bound first lst val cmp mem =
     first_position (\<lambda>p. \<not> cmp (dereference p mem) val) (distance first lst) first"

text \<open>
  Modelled from the spec: \<^verbatim>\<open>scalar::upper_bound\<close>, by its contract: the smallest
  position \<open>i\<close> such that \<open>cmp query (Sequence[i])\<close>, the first element ordered after the
  query; the end of the range if there is none.
\<close>

definition scalar_upper_bound ::
  "addr \<Rightarrow> addr \<Rightarrow> 'v \<Rightarrow> ('v \<Rightarrow> 'v \<Rightarrow> bool) \<Rightarrow> 'v memory \<Rightarrow> addr" where
  "scalar_upper_bound first lst val cmp mem =
     first_position (\<lambda>p. cmp val (dereference p mem)) (distance first lst) first"

text \<open>
  Modelled from the spec: \<^verbatim>\<open>thrust::for_each\<close> (\<^verbatim>\<open>thrust/for_each.h\<close> is not among the
  sources), the parallel-apply primitive: the function is invoked once per element of
  the range, in no required order, and the invocations share no mutable state besides
  each element's own output slot. The model takes the elements from the first to the
  last; \<open>for_each_order_irrelevant\<close> below shows that under the condition on the shared
  state every other order gives the same memory.
\<close>

definition for_each :: "'t list \<Rightarrow> ('t \<Rightarrow> 's \<Rightarrow> 's) \<Rightarrow> 's \<Rightarrow> 's" where
  "for_each elems f mem = fold f elems mem"

text \<open>
  Modelled from the spec: the range between two zip iterators
  (\<^verbatim>\<open>thrust/iterator/zip_iterator.h\<close> is not among the sources). A zip iterator is the
  tuple of its component iterators; its \<open>i\<close>-th element is the tuple of the references
  \<open>i\<close> steps after each component, and the range ends where the first component
  reaches the first component of the end.
\<close>

definition zip_range :: "addr \<times> addr \<Rightarrow> addr \<times> addr \<Rightarrow> (addr \<times> addr) list" where
  "zip_range zfirst zlast =
     map (\<lambda>i. (fst zfirst + i, snd zfirst + i)) [0..<distance (fst zfirst) (fst zlast)]"

text \<open>
  Modelled from the spec: \<^verbatim>\<open>thrust::detail::temporary_array\<close>
  (\<^verbatim>\<open>thrust/detail/temporary_array.h\<close> is not among the sources), the scoped buffer
  allocator: \<open>acquire\<close> hands out a buffer of the given capacity and \<open>release\<close> gives it
  back when the scope is left. The memory keeps an allocation frontier \<open>brk\<close>: a new
  buffer starts there, so it is fresh for every object that lies below the frontier.
\<close>

definition temporary_array :: "nat \<Rightarrow> 'v memory \<Rightarrow> addr \<times> 'v memory" where
  "temporary_array n mem = (brk mem, mem\<lparr>brk := brk mem + n\<rparr>)"

text \<open>
  Modelled from the spec: the release of a temporary array of \<open>n\<close> elements at the end
  of its scope (the destructor of \<^verbatim>\<open>temporary_array\<close>); the last one acquired is the
  first one released.
\<close>

definition release :: "nat \<Rightarrow> 'v memory \<Rightarrow> 'v memory" where
  "release n mem = mem\<lparr>brk := brk mem - n\<rparr>"


section \<open>The operation variants\<close>

text \<open>\<^verbatim>\<open>struct lbf\<close>: the offset of the lower bound from \<^verbatim>\<open>begin\<close>.\<close>

definition lbf :: "addr \<Rightarrow> addr \<Rightarrow> 'v \<Rightarrow> ('v \<Rightarrow> 'v \<Rightarrow> bool) \<Rightarrow> 'v memory \<Rightarrow> nat" where
  "lbf bgn fin val cmp mem = scalar_lower_bound bgn fin val cmp mem - bgn"

text \<open>\<^verbatim>\<open>struct ubf\<close>: the offset of the upper bound from \<^verbatim>\<open>begin\<close>.\<close>

definition ubf :: "addr \<Rightarrow> addr \<Rightarrow> 'v \<Rightarrow> ('v \<Rightarrow> 'v \<Rightarrow> bool) \<Rightarrow> 'v memory \<Rightarrow> nat" where
  "ubf bgn fin val cmp mem = scalar_upper_bound bgn fin val cmp mem - bgn"

text \<open>\<^verbatim>\<open>struct bsf\<close>: membership, from the lower bound and one comparison.\<close>

definition bsf :: "addr \<Rightarrow> addr \<Rightarrow> 'v \<Rightarrow> ('v \<Rightarrow> 'v \<Rightarrow> bool) \<Rightarrow> 'v memory \<Rightarrow> bool" where
  "bsf bgn fin val cmp mem =
     (let iter = scalar_lower_bound bgn fin val cmp mem
      in iter \<noteq> fin \<and> \<not> cmp val (dereference iter mem))"


section \<open>The batch dispatcher and the scalar bridge\<close>

text \<open>
  \<^verbatim>\<open>binary_search_functor::operator()\<close>: the tuple \<open>t\<close> holds the reference to a query
  and the reference to its output slot; the functor stores the result of the operation
  on the query in the slot.
\<close>

definition binary_search_functor ::
  "addr \<Rightarrow> addr \<Rightarrow> ('v \<Rightarrow> 'v \<Rightarrow> bool) \<Rightarrow>
   (addr \<Rightarrow> addr \<Rightarrow> 'v \<Rightarrow> ('v \<Rightarrow> 'v \<Rightarrow> bool) \<Rightarrow> 'v memory \<Rightarrow> 'r) \<Rightarrow> ('r \<Rightarrow> 'v) \<Rightarrow>
   addr \<times> addr \<Rightarrow> 'v memory \<Rightarrow> 'v memory" where
  "binary_search_functor bgn fin cmp func enc t mem =
     assign (snd t) (enc (func bgn fin (dereference (fst t) mem) cmp mem)) mem"

text \<open>
  \<^verbatim>\<open>detail::binary_search\<close>, the vector implementation: one \<^verbatim>\<open>for_each\<close> over the
  zipped queries and output slots; the result is the output iterator advanced by the
  number of queries.
\<close>

definition detail_binary_search_vector ::
  "addr \<Rightarrow> addr \<Rightarrow> addr \<Rightarrow> addr \<Rightarrow> addr \<Rightarrow> ('v \<Rightarrow> 'v \<Rightarrow> bool) \<Rightarrow>
   (addr \<Rightarrow> addr \<Rightarrow> 'v \<Rightarrow> ('v \<Rightarrow> 'v \<Rightarrow> bool) \<Rightarrow> 'v memory \<Rightarrow> 'r) \<Rightarrow> ('r \<Rightarrow> 'v) \<Rightarrow>
   'v memory \<Rightarrow> addr \<times> 'v memory" where
  "detail_binary_search_vector bgn fin values_begin values_end output cmp func enc mem =
     (output + distance values_begin values_end,
      for_each
        (zip_range (values_begin, output)
                   (values_end, output + distance values_begin values_end))
        (binary_search_functor bgn fin cmp func enc) mem)"

text \<open>
  \<^verbatim>\<open>detail::binary_search\<close>, the scalar implementation: two temporary arrays of one
  element, the value copied into the first, the vector implementation run on them, the
  result read from the second. The temporaries are released when the function returns.
\<close>

definition detail_binary_search_scalar ::
  "addr \<Rightarrow> addr \<Rightarrow> 'v \<Rightarrow> ('v \<Rightarrow> 'v \<Rightarrow> bool) \<Rightarrow>
   (addr \<Rightarrow> addr \<Rightarrow> 'v \<Rightarrow> ('v \<Rightarrow> 'v \<Rightarrow> bool) \<Rightarrow> 'v memory \<Rightarrow> 'r) \<Rightarrow> ('r \<Rightarrow> 'v) \<Rightarrow> ('v \<Rightarrow> 'r) \<Rightarrow>
   'v memory \<Rightarrow> 'r \<times> 'v memory" where
  "detail_binary_search_scalar bgn fin val cmp func enc dec mem =
     (let (d_value, mem1) = temporary_array 1 mem;
          (d_output, mem2) = temporary_array 1 mem1;
          mem3 = assign d_value val mem2;
          mem4 = snd (detail_binary_search_vector bgn fin d_value (d_value + 1) d_output
                        cmp func enc mem3)
      in (dec (dereference d_output mem4), release 1 (release 1 mem4)))"


section \<open>The public entry points\<close>

text \<open>
  The entry points without a comparator call \<^verbatim>\<open>thrust::lower_bound\<close> and its siblings
  with \<^verbatim>\<open>thrust::less\<close>; \<^verbatim>\<open>equal_range\<close> calls \<^verbatim>\<open>thrust::lower_bound\<close> and
  \<^verbatim>\<open>thrust::upper_bound\<close>. Those select the overload by the backend tag; the model
  resolves them to the generic overloads of this file, the ones with a comparator.
  The source instantiates \<^verbatim>\<open>thrust::less\<close> at the type of the query: the type \<^verbatim>\<open>T\<close> of
  \<^verbatim>\<open>value\<close> in the scalar forms, \<^verbatim>\<open>LessThanComparable\<close> in \<^verbatim>\<open>equal_range\<close>, and the
  value type \<^verbatim>\<open>ValueType\<close> of the query iterator in the batch forms. The element type of
  the sequence does not enter: the elements are converted to the type of the query
  when they are compared. The forms without a comparator therefore take the conversion
  to that type, \<open>to_T\<close> or \<open>to_ValueType\<close>; it is the identity when the sequence and the
  queries have the same type.
  The first parameter of every overload is the backend tag, a type without a value; the
  model drops it.
  The C++ overloads share a name; here the scalar forms keep it, the batch forms end in
  \<open>_vector\<close> and the forms without a comparator in \<open>_default\<close>.
\<close>

subsection \<open>Scalar functions\<close>

definition lower_bound ::
  "addr \<Rightarrow> addr \<Rightarrow> 'v \<Rightarrow> ('v \<Rightarrow> 'v \<Rightarrow> bool) \<Rightarrow> (nat \<Rightarrow> 'v) \<Rightarrow> ('v \<Rightarrow> nat) \<Rightarrow>
   'v memory \<Rightarrow> addr \<times> 'v memory" where
  "lower_bound bgn fin val cmp enc dec mem =
     (let (off, mem') = detail_binary_search_scalar bgn fin val cmp lbf enc dec mem
      in (bgn + off, mem'))"


definition upper_bound ::
  "addr \<Rightarrow> addr \<Rightarrow> 'v \<Rightarrow> ('v \<Rightarrow> 'v \<Rightarrow> bool) \<Rightarrow> (nat \<Rightarrow> 'v) \<Rightarrow> ('v \<Rightarrow> nat) \<Rightarrow>
   'v memory \<Rightarrow> addr \<times> 'v memory" where
  "upper_bound bgn fin val cmp enc dec mem =
     (let (off, mem') = detail_binary_search_scalar bgn fin val cmp ubf enc dec mem
      in (bgn + off, mem'))"


definition binary_search ::
  "addr \<Rightarrow> addr \<Rightarrow> 'v \<Rightarrow> ('v \<Rightarrow> 'v \<Rightarrow> bool) \<Rightarrow> (bool \<Rightarrow> 'v) \<Rightarrow> ('v \<Rightarrow> bool) \<Rightarrow>
   'v memory \<Rightarrow> bool \<times> 'v memory" where
  "binary_search bgn fin val cmp enc dec mem =
     detail_binary_search_scalar bgn fin val cmp bsf enc dec mem"


subsection \<open>Vector functions\<close>

definition lower_bound_vector ::
  "addr \<Rightarrow> addr \<Rightarrow> addr \<Rightarrow> addr \<Rightarrow> addr \<Rightarrow> ('v \<Rightarrow> 'v \<Rightarrow> bool) \<Rightarrow> (nat \<Rightarrow> 'v) \<Rightarrow>
   'v memory \<Rightarrow> addr \<times> 'v memory" where
  "lower_bound_vector bgn fin values_begin values_end output cmp enc mem =
     detail_binary_search_vector bgn fin values_begin values_end output cmp lbf enc mem"

definition lower_bound_vector_default ::
  "addr \<Rightarrow> addr \<Rightarrow> addr \<Rightarrow> addr \<Rightarrow> addr \<Rightarrow> ('v \<Rightarrow> 'q::ord) \<Rightarrow> (nat \<Rightarrow> 'v) \<Rightarrow>
   'v memory \<Rightarrow> addr \<times> 'v memory" where
  "lower_bound_vector_default bgn fin values_begin values_end output to_ValueType enc mem =
     lower_bound_vector bgn fin values_begin values_end output
       (thrust_less to_ValueType) enc mem"

definition upper_bound_vector ::
  "addr \<Rightarrow> addr \<Rightarrow> addr \<Rightarrow> addr \<Rightarrow> addr \<Rightarrow> ('v \<Rightarrow> 'v \<Rightarrow> bool) \<Rightarrow> (nat \<Rightarrow> 'v) \<Rightarrow>
   'v memory \<Rightarrow> addr \<times> 'v memory" where
  "upper_bound_vector bgn fin values_begin values_end output cmp enc mem =
     detail_binary_search_vector bgn fin values_begin values_end output cmp ubf enc mem"

definition upper_bound_vector_default ::
  "addr \<Rightarrow> addr \<Rightarrow> addr \<Rightarrow> addr \<Rightarrow> addr \<Rightarrow> ('v \<Rightarrow> 'q::ord) \<Rightarrow> (nat \<Rightarrow> 'v) \<Rightarrow>
   'v memory \<Rightarrow> addr \<times> 'v memory" where
  "upper_bound_vector_default bgn fin values_begin values_end output to_ValueType enc mem =
     upper_bound_vector bgn fin values_begin values_end output
       (thrust_less to_ValueType) enc mem"

definition binary_search_vector ::
  "addr \<Rightarrow> addr \<Rightarrow> addr \<Rightarrow> addr \<Rightarrow> addr \<Rightarrow> ('v \<Rightarrow> 'v \<Rightarrow> bool) \<Rightarrow> (bool \<Rightarrow> 'v) \<Rightarrow>
   'v memory \<Rightarrow> addr \<times> 'v memory" where
  "binary_search_vector bgn fin values_begin values_end output cmp enc mem =
     detail_binary_search_vector bgn fin values_begin values_end output cmp bsf enc mem"

definition binary_search_vector_default ::
  "addr \<Rightarrow> addr \<Rightarrow> addr \<Rightarrow> addr \<Rightarrow> addr \<Rightarrow> ('v \<Rightarrow> 'q::ord) \<Rightarrow> (bool \<Rightarrow> 'v) \<Rightarrow>
   'v memory \<Rightarrow> addr \<times> 'v memory" where
  "binary_search_vector_default bgn fin values_begin values_end output to_ValueType enc mem =
     binary_search_vector bgn fin values_begin values_end output
       (thrust_less to_ValueType) enc mem"

subsection \<open>Equal range\<close>

definition equal_range ::
  "addr \<Rightarrow> addr \<Rightarrow> 'v \<Rightarrow> ('v \<Rightarrow> 'v \<Rightarrow> bool) \<Rightarrow> (nat \<Rightarrow> 'v) \<Rightarrow> ('v \<Rightarrow> nat) \<Rightarrow>
   'v memory \<Rightarrow> (addr \<times> addr) \<times> 'v memory" where
  "equal_range first lst val cmp enc dec mem =
     (let (lb, mem1) = lower_bound first lst val cmp enc dec mem;
          (ub, mem2) = upper_bound first lst val cmp enc dec mem1
      in ((lb, ub), mem2))"



section \<open>Orderings, sorted sequences and test data\<close>

text \<open>
  The comparator of the data model is a strict weak ordering: irreflexive, transitive,
  and with a transitive incomparability.
\<close>

definition strict_weak_ordering :: "('v \<Rightarrow> 'v \<Rightarrow> bool) \<Rightarrow> bool" where
  "strict_weak_ordering cmp \<longleftrightarrow>
     (\<forall>a. \<not> cmp a a) \<and>
     (\<forall>a b c. cmp a b \<and> cmp b c \<longrightarrow> cmp a c) \<and>
     (\<forall>a b c. \<not> cmp a b \<and> \<not> cmp b a \<and> \<not> cmp b c \<and> \<not> cmp c b \<longrightarrow>
               \<not> cmp a c \<and> \<not> cmp c a)"

text \<open>Two values are equivalent when neither precedes the other.\<close>

definition equivalent :: "('v \<Rightarrow> 'v \<Rightarrow> bool) \<Rightarrow> 'v \<Rightarrow> 'v \<Rightarrow> bool" where
  "equivalent cmp a b \<longleftrightarrow> \<not> cmp a b \<and> \<not> cmp b a"

text \<open>The contents of a range, and a range sorted with respect to a comparator:
  no element precedes an earlier one.\<close>

definition contents :: "addr \<Rightarrow> addr \<Rightarrow> 'v memory \<Rightarrow> 'v list" where
  "contents first lst mem = map (\<lambda>p. dereference p mem) [first..<lst]"

definition sorted_range :: "addr \<Rightarrow> addr \<Rightarrow> ('v \<Rightarrow> 'v \<Rightarrow> bool) \<Rightarrow> 'v memory \<Rightarrow> bool" where
  "sorted_range first lst cmp mem \<longleftrightarrow>
     sorted_wrt (\<lambda>a b. \<not> cmp b a) (contents first lst mem)"

text \<open>
  An operation reads the sequence only when its result is the same in two memories that
  agree on the cells of the sequence.
\<close>

definition sequence_only ::
  "(addr \<Rightarrow> addr \<Rightarrow> 'v \<Rightarrow> ('v \<Rightarrow> 'v \<Rightarrow> bool) \<Rightarrow> 'v memory \<Rightarrow> 'r) \<Rightarrow> addr \<Rightarrow> addr \<Rightarrow> bool" where
  "sequence_only func bgn fin \<longleftrightarrow>
     (\<forall>v cmp m m'. (\<forall>p. bgn \<le> p \<and> p < fin \<longrightarrow> cells m p = cells m' p) \<longrightarrow>
        func bgn fin v cmp m = func bgn fin v cmp m')"

text \<open>
  A memory that holds the given values from address 0 on and \<open>d\<close> elsewhere; its
  allocation frontier is the end of the values.
\<close>

definition memory_of :: "'v list \<Rightarrow> 'v \<Rightarrow> 'v memory" where
  "memory_of xs d = \<lparr>cells = (\<lambda>p. if p < length xs then xs ! p else d), brk = length xs\<rparr>"

text \<open>
  The data of the spec's scenarios. \<open>spec_sequence\<close> is the sequence 1, 3, 3, 3, 5, 7
  at the addresses 0 to 5. \<open>spec_batch\<close> has the queries 0, 3, 8 behind it, at the
  addresses 6 to 8, and three output cells at 9 to 11. \<open>one_query\<close> has the single
  query 3 at address 6 and one output cell at 7. \<open>in_place\<close> has the queries 0, 3, 8
  at the addresses 6 to 8 and no separate output cells, for a call in place.
\<close>

definition spec_sequence :: "nat memory" where
  "spec_sequence = memory_of [1, 3, 3, 3, 5, 7] 0"

definition spec_batch :: "nat memory" where
  "spec_batch = memory_of [1, 3, 3, 3, 5, 7, 0, 3, 8, 9, 9, 9] 0"

definition one_query :: "nat memory" where
  "one_query = memory_of [1, 3, 3, 3, 5, 7, 3, 0] 0"

definition in_place :: "nat memory" where
  "in_place = memory_of [1, 3, 3, 3, 5, 7, 0, 3, 8] 0"

text \<open>
  The sequence 1, 3, 5 at the addresses 0 to 2 and the queries 1, 1 at the addresses 3
  and 4, for a call whose output lies on the sequence.
\<close>

definition overlapping :: "nat memory" where
  "overlapping = memory_of [1, 3, 5, 1, 1] 0"




section \<open>The search primitive\<close>

text \<open>\<open>first_position\<close> returns the least position of its range that satisfies the
  predicate, and the end of the range if there is none.\<close>

lemma first_position_bounds:
  "first \<le> first_position P n first \<and> first_position P n first \<le> first + n"
proof (induction n arbitrary: first)
  case 0
  show ?case by simp
next
  case (Suc n)
  from Suc.IH [of "Suc first"] show ?case by auto
qed

lemma first_position_before:
  "first \<le> p \<Longrightarrow> p < first_position P n first \<Longrightarrow> \<not> P p"
proof (induction n arbitrary: first)
  case 0
  then show ?case by simp
next
  case (Suc n)
  show ?case
  proof (cases "P first")
    case True
    with Suc.prems show ?thesis by simp
  next
    case False
    show ?thesis
    proof (cases "p = first")
      case True
      with False show ?thesis by simp
    next
      case neq: False
      with Suc.prems \<open>\<not> P first\<close> have "Suc first \<le> p" "p < first_position P n (Suc first)"
        by simp_all
      then show ?thesis by (rule Suc.IH)
    qed
  qed
qed

lemma first_position_at:
  "first_position P n first < first + n \<Longrightarrow> P (first_position P n first)"
  by (induction n arbitrary: first) (auto split: if_splits)

lemma first_position_cong:
  "(\<And>p. first \<le> p \<Longrightarrow> p < first + n \<Longrightarrow> P p = Q p) \<Longrightarrow>
     first_position P n first = first_position Q n first"
proof (induction n arbitrary: first)
  case 0
  show ?case by simp
next
  case (Suc n)
  have here: "P first = Q first" by (rule Suc.prems) simp_all
  have "first_position P n (Suc first) = first_position Q n (Suc first)"
    by (rule Suc.IH, rule Suc.prems) simp_all
  with here show ?case by simp
qed

text \<open>The lower and the upper bound as positions.\<close>

lemma scalar_lower_bound_bounds:
  "first \<le> scalar_lower_bound first lst val cmp mem"
  "first \<le> lst \<Longrightarrow> scalar_lower_bound first lst val cmp mem \<le> lst"
  using first_position_bounds [of first "\<lambda>p. \<not> cmp (dereference p mem) val" "lst - first"]
  by (simp_all add: scalar_lower_bound_def distance_def)

lemma scalar_lower_bound_before:
  "first \<le> p \<Longrightarrow> p < scalar_lower_bound first lst val cmp mem \<Longrightarrow> cmp (dereference p mem) val"
  using first_position_before [of first p "\<lambda>p. \<not> cmp (dereference p mem) val" "lst - first"]
  by (simp add: scalar_lower_bound_def distance_def)

lemma scalar_lower_bound_at:
  "scalar_lower_bound first lst val cmp mem < lst \<Longrightarrow>
     \<not> cmp (dereference (scalar_lower_bound first lst val cmp mem) mem) val"
  using first_position_at [of "\<lambda>p. \<not> cmp (dereference p mem) val" "lst - first" first]
    first_position_bounds [of first "\<lambda>p. \<not> cmp (dereference p mem) val" "lst - first"]
  by (simp add: scalar_lower_bound_def distance_def)

lemma scalar_upper_bound_bounds:
  "first \<le> scalar_upper_bound first lst val cmp mem"
  "first \<le> lst \<Longrightarrow> scalar_upper_bound first lst val cmp mem \<le> lst"
  using first_position_bounds [of first "\<lambda>p. cmp val (dereference p mem)" "lst - first"]
  by (simp_all add: scalar_upper_bound_def distance_def)

lemma scalar_upper_bound_before:
  "first \<le> p \<Longrightarrow> p < scalar_upper_bound first lst val cmp mem \<Longrightarrow> \<not> cmp val (dereference p mem)"
  using first_position_before [of first p "\<lambda>p. cmp val (dereference p mem)" "lst - first"]
  by (simp add: scalar_upper_bound_def distance_def)

lemma scalar_upper_bound_at:
  "scalar_upper_bound first lst val cmp mem < lst \<Longrightarrow>
     cmp val (dereference (scalar_upper_bound first lst val cmp mem) mem)"
  using first_position_at [of "\<lambda>p. cmp val (dereference p mem)" "lst - first" first]
    first_position_bounds [of first "\<lambda>p. cmp val (dereference p mem)" "lst - first"]
  by (simp add: scalar_upper_bound_def distance_def)


section \<open>Strict weak orderings and sorted ranges\<close>

lemma swo_asym: "strict_weak_ordering cmp \<Longrightarrow> cmp a b \<Longrightarrow> \<not> cmp b a"
  unfolding strict_weak_ordering_def by blast

lemma swo_negtrans:
  assumes swo: "strict_weak_ordering cmp" and ab: "cmp a b"
  shows "cmp a c \<or> cmp c b"
proof (rule ccontr)
  assume "\<not> (cmp a c \<or> cmp c b)"
  then have nac: "\<not> cmp a c" and ncb: "\<not> cmp c b" by simp_all
  from swo have trans: "\<And>x y z. cmp x y \<Longrightarrow> cmp y z \<Longrightarrow> cmp x z"
    and incomp: "\<And>x y z. \<not> cmp x y \<Longrightarrow> \<not> cmp y x \<Longrightarrow> \<not> cmp y z \<Longrightarrow> \<not> cmp z y \<Longrightarrow> \<not> cmp x z"
    unfolding strict_weak_ordering_def by blast+
  have nca: "\<not> cmp c a" using trans [of c a b] ab ncb by blast
  have nbc: "\<not> cmp b c" using trans [of a b c] ab nac by blast
  from incomp [OF nac nca ncb nbc] ab show False by simp
qed

lemma sorted_rangeD:
  assumes "sorted_range first lst cmp mem" and "first \<le> i" and "i < j" and "j < lst"
  shows "\<not> cmp (dereference j mem) (dereference i mem)"
proof -
  let ?xs = "contents first lst mem"
  have len: "length ?xs = lst - first" by (simp add: contents_def)
  have nth: "?xs ! (k - first) = dereference k mem" if "first \<le> k" "k < lst" for k
  proof -
    from that have less: "k - first < lst - first" and sum: "first + (k - first) < lst"
      by arith+
    from sum have "[first..<lst] ! (k - first) = first + (k - first)" by (rule nth_upt)
    with that less show ?thesis by (simp add: contents_def)
  qed
  from assms have "i - first < j - first" "j - first < length ?xs"
    unfolding len by arith+
  with assms(1) have "\<not> cmp (?xs ! (j - first)) (?xs ! (i - first))"
    unfolding sorted_range_def by (simp add: sorted_wrt_iff_nth_less)
  with assms nth [of i] nth [of j] show ?thesis by simp
qed

lemma less_strict_weak_ordering: "strict_weak_ordering ((<) :: 'a::linorder \<Rightarrow> 'a \<Rightarrow> bool)"
  unfolding strict_weak_ordering_def by auto

lemma lower_le_upper:
  assumes swo: "strict_weak_ordering cmp" and le: "first \<le> lst"
  shows "scalar_lower_bound first lst val cmp mem \<le> scalar_upper_bound first lst val cmp mem"
proof (rule ccontr)
  let ?l = "scalar_lower_bound first lst val cmp mem"
  let ?u = "scalar_upper_bound first lst val cmp mem"
  assume "\<not> ?l \<le> ?u"
  then have lt: "?u < ?l" by simp
  have "?l \<le> lst" using le by (rule scalar_lower_bound_bounds)
  with lt have "?u < lst" by simp
  then have "cmp val (dereference ?u mem)" by (rule scalar_upper_bound_at)
  moreover have "cmp (dereference ?u mem) val"
    using scalar_upper_bound_bounds(1) lt by (rule scalar_lower_bound_before)
  ultimately show False using swo_asym [OF swo] by blast
qed

text \<open>On a sorted range, everything from the lower bound on is not before the value,
  and everything from the upper bound on is after it.\<close>

lemma sorted_from_lower_bound:
  assumes swo: "strict_weak_ordering cmp" and srt: "sorted_range first lst cmp mem"
    and p: "scalar_lower_bound first lst val cmp mem \<le> p" "p < lst"
  shows "\<not> cmp (dereference p mem) val"
proof (cases "p = scalar_lower_bound first lst val cmp mem")
  case True
  with p scalar_lower_bound_at [of first lst val cmp mem] show ?thesis by simp
next
  case False
  let ?l = "scalar_lower_bound first lst val cmp mem"
  from False p have lt: "?l < p" by simp
  with p have "?l < lst" by simp
  then have at: "\<not> cmp (dereference ?l mem) val" by (rule scalar_lower_bound_at)
  have "\<not> cmp (dereference p mem) (dereference ?l mem)"
    using srt scalar_lower_bound_bounds(1) lt p(2) by (rule sorted_rangeD)
  with at swo_negtrans [OF swo, of "dereference p mem" val "dereference ?l mem"]
  show ?thesis by blast
qed

lemma sorted_from_upper_bound:
  assumes swo: "strict_weak_ordering cmp" and srt: "sorted_range first lst cmp mem"
    and p: "scalar_upper_bound first lst val cmp mem \<le> p" "p < lst"
  shows "cmp val (dereference p mem)"
proof (cases "p = scalar_upper_bound first lst val cmp mem")
  case True
  with p scalar_upper_bound_at [of first lst val cmp mem] show ?thesis by simp
next
  case False
  let ?u = "scalar_upper_bound first lst val cmp mem"
  from False p have lt: "?u < p" by simp
  with p have "?u < lst" by simp
  then have at: "cmp val (dereference ?u mem)" by (rule scalar_upper_bound_at)
  have "\<not> cmp (dereference p mem) (dereference ?u mem)"
    using srt scalar_upper_bound_bounds(1) lt p(2) by (rule sorted_rangeD)
  with swo_negtrans [OF swo at, of "dereference p mem"]
  show ?thesis by blast
qed


lemma contents_nth:
  "i < distance first lst \<Longrightarrow> contents first lst mem ! i = dereference (first + i) mem"
  by (simp add: contents_def distance_def)

lemma length_contents: "length (contents first lst mem) = distance first lst"
  by (simp add: contents_def distance_def)

lemma equivalent_positions:
  assumes swo: "strict_weak_ordering cmp" and le: "bgn \<le> fin"
    and srt: "sorted_range bgn fin cmp mem" and p: "bgn \<le> p" "p < fin"
  shows "equivalent cmp (dereference p mem) val \<longleftrightarrow>
         scalar_lower_bound bgn fin val cmp mem \<le> p \<and> p < scalar_upper_bound bgn fin val cmp mem"
proof
  assume eq: "equivalent cmp (dereference p mem) val"
  have "scalar_lower_bound bgn fin val cmp mem \<le> p"
  proof (rule ccontr)
    assume "\<not> scalar_lower_bound bgn fin val cmp mem \<le> p"
    then have "p < scalar_lower_bound bgn fin val cmp mem" by simp
    with p(1) have "cmp (dereference p mem) val" by (rule scalar_lower_bound_before)
    with eq show False by (simp add: equivalent_def)
  qed
  moreover have "p < scalar_upper_bound bgn fin val cmp mem"
  proof (rule ccontr)
    assume "\<not> p < scalar_upper_bound bgn fin val cmp mem"
    then have "scalar_upper_bound bgn fin val cmp mem \<le> p" by simp
    with swo srt have "cmp val (dereference p mem)" using p(2) by (rule sorted_from_upper_bound)
    with eq show False by (simp add: equivalent_def)
  qed
  ultimately show "scalar_lower_bound bgn fin val cmp mem \<le> p \<and> p < scalar_upper_bound bgn fin val cmp mem"
    by simp
next
  assume in_run: "scalar_lower_bound bgn fin val cmp mem \<le> p \<and> p < scalar_upper_bound bgn fin val cmp mem"
  with swo srt p(2) have "\<not> cmp (dereference p mem) val"
    by (simp add: sorted_from_lower_bound)
  moreover from in_run have "p < scalar_upper_bound bgn fin val cmp mem" by simp
  with p(1) have "\<not> cmp val (dereference p mem)"
    by (rule scalar_upper_bound_before)
  ultimately show "equivalent cmp (dereference p mem) val" by (simp add: equivalent_def)
qed


section \<open>The operations read the sequence only\<close>

lemma sequence_onlyD:
  "sequence_only func bgn fin \<Longrightarrow> (\<And>p. bgn \<le> p \<Longrightarrow> p < fin \<Longrightarrow> cells m p = cells m' p) \<Longrightarrow>
     func bgn fin v cmp m = func bgn fin v cmp m'"
  unfolding sequence_only_def by blast

lemma scalar_lower_bound_local:
  assumes "\<And>p. bgn \<le> p \<Longrightarrow> p < fin \<Longrightarrow> cells m p = cells m' p"
  shows "scalar_lower_bound bgn fin val cmp m = scalar_lower_bound bgn fin val cmp m'"
  unfolding scalar_lower_bound_def
  by (rule first_position_cong) (simp add: assms dereference_def distance_def)

lemma scalar_upper_bound_local:
  assumes "\<And>p. bgn \<le> p \<Longrightarrow> p < fin \<Longrightarrow> cells m p = cells m' p"
  shows "scalar_upper_bound bgn fin val cmp m = scalar_upper_bound bgn fin val cmp m'"
  unfolding scalar_upper_bound_def
  by (rule first_position_cong) (simp add: assms dereference_def distance_def)

lemma lbf_sequence_only: "sequence_only lbf bgn fin"
  unfolding sequence_only_def lbf_def
  by (intro allI impI arg_cong2 [where f = "(-)"] scalar_lower_bound_local refl) simp

lemma ubf_sequence_only: "sequence_only ubf bgn fin"
  unfolding sequence_only_def ubf_def
  by (intro allI impI arg_cong2 [where f = "(-)"] scalar_upper_bound_local refl) simp

lemma bsf_sequence_only:
  assumes le: "bgn \<le> fin"
  shows "sequence_only bsf bgn fin"
  unfolding sequence_only_def
proof (intro allI impI)
  fix val :: 'a and cmp :: "'a \<Rightarrow> 'a \<Rightarrow> bool" and m m' :: "'a memory"
  assume same: "\<forall>p. bgn \<le> p \<and> p < fin \<longrightarrow> cells m p = cells m' p"
  let ?l = "scalar_lower_bound bgn fin val cmp m"
  have eq: "scalar_lower_bound bgn fin val cmp m' = ?l"
    by (rule sym, rule scalar_lower_bound_local) (simp add: same)
  have "bgn \<le> ?l" "?l \<le> fin" using le by (simp_all add: scalar_lower_bound_bounds)
  then have "?l \<noteq> fin \<Longrightarrow> cells m ?l = cells m' ?l" by (simp add: same)
  then show "bsf bgn fin val cmp m = bsf bgn fin val cmp m'"
    by (auto simp: bsf_def Let_def eq dereference_def)
qed


section \<open>The batch dispatcher\<close>

text \<open>What one invocation of the functor does to the memory.\<close>

lemma cells_assign: "cells (assign iter x mem) p = (if p = iter then x else cells mem p)"
  by (simp add: assign_def)

lemma brk_assign: "brk (assign iter x mem) = brk mem"
  by (simp add: assign_def)

lemma cells_functor:
  "cells (binary_search_functor bgn fin cmp func enc t mem) p =
     (if p = snd t then enc (func bgn fin (cells mem (fst t)) cmp mem) else cells mem p)"
  by (simp add: binary_search_functor_def cells_assign dereference_def)

lemma brk_functor: "brk (binary_search_functor bgn fin cmp func enc t mem) = brk mem"
  by (simp add: binary_search_functor_def brk_assign)

lemma for_each_snoc: "for_each (es @ [e]) f mem = f e (for_each es f mem)"
  by (simp add: for_each_def)

lemma zip_range_eq:
  "zip_range (values_begin, output) (values_end, e) =
     map (\<lambda>i. (values_begin + i, output + i)) [0..<distance values_begin values_end]"
  by (simp add: zip_range_def)

lemma memory_eqI: "cells m = cells m' \<Longrightarrow> brk m = brk m' \<Longrightarrow> m = (m' :: 'v memory)"
  by simp

text \<open>
  The memory after the invocations on the zipped elements at the indices \<open>js\<close>, taken in
  the order of the list: the allocation frontier is where it was, and so is every cell
  that is not the output slot of one of the indices.
\<close>

lemma visited_brk:
  "brk (for_each (map (\<lambda>i. (vb + i, out + i)) js)
          (binary_search_functor bgn fin cmp func enc) mem) = brk mem"
proof (induction js rule: rev_induct)
  case Nil
  show ?case by (simp add: for_each_def)
next
  case (snoc j js)
  then show ?case by (simp add: for_each_snoc brk_functor)
qed

lemma visited_frame:
  "\<not> (out \<le> p \<and> p - out \<in> set js) \<Longrightarrow>
     cells (for_each (map (\<lambda>i. (vb + i, out + i)) js)
             (binary_search_functor bgn fin cmp func enc) mem) p = cells mem p"
proof (induction js rule: rev_induct)
  case Nil
  show ?case by (simp add: for_each_def)
next
  case (snoc j js)
  from snoc.prems have other: "p \<noteq> out + j" and before: "\<not> (out \<le> p \<and> p - out \<in> set js)"
    by auto
  from before have "cells (for_each (map (\<lambda>i. (vb + i, out + i)) js)
             (binary_search_functor bgn fin cmp func enc) mem) p = cells mem p"
    by (rule snoc.IH)
  with other show ?case by (simp add: for_each_snoc cells_functor)
qed

text \<open>
  The output slots of the visited indices hold the results, when no output slot lies in
  the sequence and an output slot is the query of no other index. The indices are
  visited once each, in any order.
\<close>

lemma visited_results:
  assumes loc: "sequence_only func bgn fin"
    and seq: "{out..<out + n} \<inter> {bgn..<fin} = {}"
    and qry: "out = vb \<or> {out..<out + n} \<inter> {vb..<vb + n} = {}"
  shows "distinct js \<Longrightarrow> set js \<subseteq> {0..<n} \<Longrightarrow> i \<in> set js \<Longrightarrow>
     cells (for_each (map (\<lambda>i. (vb + i, out + i)) js)
             (binary_search_functor bgn fin cmp func enc) mem) (out + i)
       = enc (func bgn fin (cells mem (vb + i)) cmp mem)"
proof (induction js rule: rev_induct)
  case Nil
  then show ?case by simp
next
  case (snoc j js)
  let ?M = "for_each (map (\<lambda>i. (vb + i, out + i)) js)
             (binary_search_functor bgn fin cmp func enc) mem"
  from snoc.prems have dist: "distinct js" and sub: "set js \<subseteq> {0..<n}"
    and new: "j \<notin> set js" and jn: "j < n" by simp_all
  have inside_range: "q \<in> {out..<out + n}" if "out \<le> q \<and> q - out \<in> set js" for q
  proof -
    from that sub have "q - out < n" by auto
    with that show ?thesis by auto
  qed
  show ?case
  proof (cases "i = j")
    case True
    have "\<not> (out \<le> vb + j \<and> vb + j - out \<in> set js)"
    proof
      assume inside: "out \<le> vb + j \<and> vb + j - out \<in> set js"
      from qry show False
      proof
        assume "out = vb"
        with inside new show False by simp
      next
        assume disj: "{out..<out + n} \<inter> {vb..<vb + n} = {}"
        from inside have "vb + j \<in> {out..<out + n}" by (rule inside_range)
        moreover from jn have "vb + j \<in> {vb..<vb + n}" by simp
        ultimately show False using disj by blast
      qed
    qed
    then have query: "cells ?M (vb + j) = cells mem (vb + j)" by (rule visited_frame)
    have "cells ?M q = cells mem q" if "bgn \<le> q" "q < fin" for q
    proof (rule visited_frame)
      from that have "q \<in> {bgn..<fin}" by simp
      with seq have "q \<notin> {out..<out + n}" by blast
      with inside_range show "\<not> (out \<le> q \<and> q - out \<in> set js)" by blast
    qed
    with loc have "func bgn fin (cells mem (vb + j)) cmp ?M
        = func bgn fin (cells mem (vb + j)) cmp mem"
      by (rule sequence_onlyD)
    with True query show ?thesis by (simp add: for_each_snoc cells_functor)
  next
    case False
    with snoc.prems have "i \<in> set js" by simp
    with dist sub have "cells ?M (out + i) = enc (func bgn fin (cells mem (vb + i)) cmp mem)"
      by (rule snoc.IH)
    with False show ?thesis by (simp add: for_each_snoc cells_functor)
  qed
qed

text \<open>
  So the order of the invocations does not matter: visiting every index once, in any
  order, gives the memory that the vector implementation returns.
\<close>

lemma for_each_order_irrelevant:
  assumes loc: "sequence_only func bgn fin"
    and seq: "{output..<output + distance values_begin values_end} \<inter> {bgn..<fin} = {}"
    and qry: "output = values_begin \<or>
        {output..<output + distance values_begin values_end}
          \<inter> {values_begin..<values_begin + distance values_begin values_end} = {}"
    and perm: "distinct js" "set js = {0..<distance values_begin values_end}"
  shows "for_each (map (\<lambda>i. (values_begin + i, output + i)) js)
           (binary_search_functor bgn fin cmp func enc) mem
       = snd (detail_binary_search_vector bgn fin values_begin values_end output cmp func enc mem)"
proof -
  let ?n = "distance values_begin values_end"
  let ?run = "\<lambda>js. for_each (map (\<lambda>i. (values_begin + i, output + i)) js)
           (binary_search_functor bgn fin cmp func enc) mem"
  have cell: "cells (?run ks) p = (if output \<le> p \<and> p - output \<in> set ks
      then enc (func bgn fin (cells mem (values_begin + (p - output))) cmp mem) else cells mem p)"
    if ks: "distinct ks" "set ks \<subseteq> {0..<?n}" for ks p
  proof (cases "output \<le> p \<and> p - output \<in> set ks")
    case True
    then have p: "output + (p - output) = p" and member: "p - output \<in> set ks" by simp_all
    from loc seq qry ks member
    have "cells (?run ks) (output + (p - output))
        = enc (func bgn fin (cells mem (values_begin + (p - output))) cmp mem)"
      by (rule visited_results)
    then have "cells (?run ks) p
        = enc (func bgn fin (cells mem (values_begin + (p - output))) cmp mem)"
      by (simp only: p)
    with True show ?thesis by (simp only: if_P)
  next
    case False
    then have "cells (?run ks) p = cells mem p" by (rule visited_frame)
    with False show ?thesis by (simp only: if_not_P if_False)
  qed
  have sub: "set js \<subseteq> {0..<?n}" by (simp add: perm(2))
  have all: "set [0..<?n] \<subseteq> {0..<?n}" by simp
  have "?run js = ?run [0..<?n]"
  proof (rule memory_eqI)
    show "cells (?run js) = cells (?run [0..<?n])"
    proof
      fix p
      show "cells (?run js) p = cells (?run [0..<?n]) p"
        unfolding cell [OF perm(1) sub] cell [OF distinct_upt all] by (simp add: perm(2))
    qed
    show "brk (?run js) = brk (?run [0..<?n])" by (simp add: visited_brk)
  qed
  then show ?thesis by (simp add: detail_binary_search_vector_def zip_range_eq)
qed

text \<open>
  The conditions are needed. When the output lies on the sequence, an invocation reads
  what another one has written, and the result depends on the order, which the
  parallel-apply primitive leaves open: the two equal queries 1, 1 get the lower bounds
  0, 1 in one order and 0, 0 in the other.
\<close>

lemma overlapping_output_depends_on_order:
  "contents 0 2 (for_each (map (\<lambda>i. (3 + i, 0 + i)) [0, 1])
                  (binary_search_functor 0 3 (<) lbf id) overlapping) = [0, 1]
   \<and> contents 0 2 (for_each (map (\<lambda>i. (3 + i, 0 + i)) [1, 0])
                  (binary_search_functor 0 3 (<) lbf id) overlapping) = [0, 0]
   \<and> contents 0 2 (snd (lower_bound_vector 0 3 3 5 0 (<) id overlapping)) = [0, 1]"
  by code_simp

text \<open>The vector implementation: the frame, the frontier and the results.\<close>

lemma batch_frame:
  assumes "\<not> (output \<le> p \<and> p < output + distance values_begin values_end)"
  shows "cells (snd (detail_binary_search_vector bgn fin values_begin values_end output cmp func enc mem)) p
       = cells mem p"
proof -
  from assms have "\<not> (output \<le> p \<and> p - output \<in> set [0..<distance values_begin values_end])"
    by auto
  then have "cells (for_each (map (\<lambda>i. (values_begin + i, output + i))
                 [0..<distance values_begin values_end])
             (binary_search_functor bgn fin cmp func enc) mem) p = cells mem p"
    by (rule visited_frame)
  then show ?thesis by (simp add: detail_binary_search_vector_def zip_range_eq)
qed

lemma batch_brk:
  "brk (snd (detail_binary_search_vector bgn fin values_begin values_end output cmp func enc mem))
     = brk mem"
  by (simp add: detail_binary_search_vector_def zip_range_eq visited_brk)

lemma batch_result:
  assumes loc: "sequence_only func bgn fin"
    and read_only: "{output..<output + distance values_begin values_end} \<inter> {bgn..<fin} = {}"
    and own_slot: "output = values_begin \<or>
        {output..<output + distance values_begin values_end} \<inter> {values_begin..<values_end} = {}"
    and i: "i < distance values_begin values_end"
  shows "dereference (output + i)
           (snd (detail_binary_search_vector bgn fin values_begin values_end output cmp func enc mem))
         = enc (func bgn fin (dereference (values_begin + i) mem) cmp mem)"
proof -
  let ?n = "distance values_begin values_end"
  from i have "values_begin + ?n = values_end" by (simp add: distance_def)
  with own_slot have own: "output = values_begin \<or>
        {output..<output + ?n} \<inter> {values_begin..<values_begin + ?n} = {}" by simp
  have all: "set [0..<?n] \<subseteq> {0..<?n}" by simp
  from i have member: "i \<in> set [0..<?n]" by simp
  from loc read_only own distinct_upt all member
  have "cells (for_each (map (\<lambda>i. (values_begin + i, output + i)) [0..<?n])
             (binary_search_functor bgn fin cmp func enc) mem) (output + i)
       = enc (func bgn fin (cells mem (values_begin + i)) cmp mem)"
    by (rule visited_results)
  then show ?thesis
    by (simp add: detail_binary_search_vector_def zip_range_eq dereference_def)
qed

text \<open>
  An output cell depends on the sequence and on its own query, and on no other query.
\<close>

lemma batch_result_independent:
  assumes loc: "sequence_only func bgn fin"
    and read_only: "{output..<output + distance values_begin values_end} \<inter> {bgn..<fin} = {}"
    and own_slot: "output = values_begin \<or>
        {output..<output + distance values_begin values_end} \<inter> {values_begin..<values_end} = {}"
    and i: "i < distance values_begin values_end"
    and same_sequence: "\<And>p. bgn \<le> p \<Longrightarrow> p < fin \<Longrightarrow> cells mem p = cells mem' p"
    and same_query: "dereference (values_begin + i) mem = dereference (values_begin + i) mem'"
  shows "dereference (output + i)
           (snd (detail_binary_search_vector bgn fin values_begin values_end output cmp func enc mem))
       = dereference (output + i)
           (snd (detail_binary_search_vector bgn fin values_begin values_end output cmp func enc mem'))"
proof -
  have "func bgn fin (dereference (values_begin + i) mem) cmp mem
      = func bgn fin (dereference (values_begin + i) mem) cmp mem'"
    using loc by (rule sequence_onlyD) (rule same_sequence)
  with same_query show ?thesis
    by (simp add: batch_result [OF loc read_only own_slot i])
qed

lemma batch_of_one:
  "detail_binary_search_vector bgn fin vb (Suc vb) out cmp func enc mem =
     (Suc out, assign out (enc (func bgn fin (dereference vb mem) cmp mem)) mem)"
  by (simp add: detail_binary_search_vector_def zip_range_def distance_def for_each_def
      binary_search_functor_def)


section \<open>The scalar bridge\<close>

text \<open>The scalar implementation is the vector implementation on the two temporaries.\<close>

lemma scalar_bridge_unfolded:
  "detail_binary_search_scalar bgn fin val cmp func enc dec mem =
     (dec (dereference (Suc (brk mem))
        (snd (detail_binary_search_vector bgn fin (brk mem) (Suc (brk mem)) (Suc (brk mem)) cmp func enc
               (assign (brk mem) val (mem\<lparr>brk := Suc (Suc (brk mem))\<rparr>))))),
      release 1 (release 1
        (snd (detail_binary_search_vector bgn fin (brk mem) (Suc (brk mem)) (Suc (brk mem)) cmp func enc
               (assign (brk mem) val (mem\<lparr>brk := Suc (Suc (brk mem))\<rparr>))))))"
  by (simp add: detail_binary_search_scalar_def temporary_array_def Let_def)

text \<open>
  When the sequence lies below the allocation frontier, the temporaries are fresh: the
  result is the result of the operation, stored and read back, and the memory changes in
  the two released cells only.
\<close>

lemma scalar_bridge:
  assumes loc: "sequence_only func bgn fin" and fresh: "fin \<le> brk mem"
  shows "detail_binary_search_scalar bgn fin val cmp func enc dec mem =
     (dec (enc (func bgn fin val cmp mem)),
      mem\<lparr>cells := (cells mem)(brk mem := val, Suc (brk mem) := enc (func bgn fin val cmp mem))\<rparr>)"
proof -
  let ?m3 = "assign (brk mem) val (mem\<lparr>brk := Suc (Suc (brk mem))\<rparr>)"
  have "func bgn fin val cmp ?m3 = func bgn fin val cmp mem"
    using loc
  proof (rule sequence_onlyD)
    fix p assume "bgn \<le> p" "p < fin"
    with fresh show "cells ?m3 p = cells mem p" by (simp add: assign_def)
  qed
  then show ?thesis
    by (simp add: scalar_bridge_unfolded batch_of_one assign_def release_def dereference_def)
qed

lemma lower_bound_result:
  assumes fresh: "fin \<le> brk mem"
  shows "lower_bound bgn fin val cmp enc dec mem =
     (bgn + dec (enc (lbf bgn fin val cmp mem)),
      mem\<lparr>cells := (cells mem)(brk mem := val, Suc (brk mem) := enc (lbf bgn fin val cmp mem))\<rparr>)"
  by (simp add: lower_bound_def scalar_bridge [OF lbf_sequence_only fresh])

lemma upper_bound_result:
  assumes fresh: "fin \<le> brk mem"
  shows "upper_bound bgn fin val cmp enc dec mem =
     (bgn + dec (enc (ubf bgn fin val cmp mem)),
      mem\<lparr>cells := (cells mem)(brk mem := val, Suc (brk mem) := enc (ubf bgn fin val cmp mem))\<rparr>)"
  by (simp add: upper_bound_def scalar_bridge [OF ubf_sequence_only fresh])

lemma binary_search_result:
  assumes valid: "bgn \<le> fin" and fresh: "fin \<le> brk mem"
  shows "binary_search bgn fin val cmp enc dec mem =
     (dec (enc (bsf bgn fin val cmp mem)),
      mem\<lparr>cells := (cells mem)(brk mem := val, Suc (brk mem) := enc (bsf bgn fin val cmp mem))\<rparr>)"
  by (simp add: binary_search_def scalar_bridge [OF bsf_sequence_only [OF valid] fresh])




section \<open>The claims of the specification\<close>

text \<open>
  Claim C1. The contract of the batch dispatcher. Take a call of the vector
  implementation on a valid sequence range, with \<open>N\<close> queries, under the conditions of
  the spec's data and resource model: the sequence is read-only for the duration of the
  search (no output slot lies in it), and no query's execution observes the state of
  another, each reading the sequence and its own query and writing its own output slot
  (the output range is the query range itself, or does not meet it). Then, after the
  call, for every index \<open>i < N\<close> the output cell \<open>i\<close> holds the result of the operation
  on the sequence, the query \<open>i\<close> and the comparator, for each of the three operations
  \<open>lbf\<close>, \<open>ubf\<close> and \<open>bsf\<close>; no other query enters the result
  (\<open>batch_result_independent\<close>). By \<open>for_each_order_irrelevant\<close> the same memory
  results from every order of the invocations. Without the conditions the result
  depends on the order (\<open>overlapping_output_depends_on_order\<close>), which the
  parallel-apply primitive leaves open.
\<close>

theorem batch_dispatcher_contract:
  assumes valid: "bgn \<le> fin"
    and read_only: "{output..<output + distance values_begin values_end} \<inter> {bgn..<fin} = {}"
    and own_slot: "output = values_begin \<or>
        {output..<output + distance values_begin values_end} \<inter> {values_begin..<values_end} = {}"
    and i: "i < distance values_begin values_end"
  shows "dereference (output + i)
           (snd (detail_binary_search_vector bgn fin values_begin values_end output cmp lbf encn mem))
         = encn (lbf bgn fin (dereference (values_begin + i) mem) cmp mem)
     \<and> dereference (output + i)
           (snd (detail_binary_search_vector bgn fin values_begin values_end output cmp ubf encn mem))
         = encn (ubf bgn fin (dereference (values_begin + i) mem) cmp mem)
     \<and> dereference (output + i)
           (snd (detail_binary_search_vector bgn fin values_begin values_end output cmp bsf encb mem))
         = encb (bsf bgn fin (dereference (values_begin + i) mem) cmp mem)"
proof (intro conjI)
  show "dereference (output + i)
           (snd (detail_binary_search_vector bgn fin values_begin values_end output cmp lbf encn mem))
         = encn (lbf bgn fin (dereference (values_begin + i) mem) cmp mem)"
    using lbf_sequence_only read_only own_slot i by (rule batch_result)
  show "dereference (output + i)
           (snd (detail_binary_search_vector bgn fin values_begin values_end output cmp ubf encn mem))
         = encn (ubf bgn fin (dereference (values_begin + i) mem) cmp mem)"
    using ubf_sequence_only read_only own_slot i by (rule batch_result)
  show "dereference (output + i)
           (snd (detail_binary_search_vector bgn fin values_begin values_end output cmp bsf encb mem))
         = encb (bsf bgn fin (dereference (values_begin + i) mem) cmp mem)"
    using bsf_sequence_only [OF valid] read_only own_slot i by (rule batch_result)
qed

text \<open>
  The fifth scenario of the spec: the queries 0, 3, 8 against 1, 3, 3, 3, 5, 7 give the
  lower bounds 0, 1, 6, the upper bounds 0, 4, 6 and the memberships false, true, false;
  first with the output behind the queries, then, for the lower bounds, in place.
\<close>

theorem batch_dispatcher_contract_witness:
  "(0::nat) \<le> 6
   \<and> {9..<9 + distance 6 9} \<inter> {0..<6} = {}
   \<and> {9..<9 + distance 6 9} \<inter> {6..<9} = {}
   \<and> 1 < distance 6 9
   \<and> dereference (9 + 1) (snd (detail_binary_search_vector 0 6 6 9 9 (<) lbf id spec_batch))
       = id (lbf 0 6 (dereference (6 + 1) spec_batch) (<) spec_batch)
   \<and> contents 9 12 (snd (detail_binary_search_vector 0 6 6 9 9 (<) lbf id spec_batch)) = [0, 1, 6]
   \<and> contents 9 12 (snd (detail_binary_search_vector 0 6 6 9 9 (<) ubf id spec_batch)) = [0, 4, 6]
   \<and> contents 9 12 (snd (detail_binary_search_vector 0 6 6 9 9 (<) bsf of_bool spec_batch))
       = [0, 1, 0]
   \<and> {6..<6 + distance 6 9} \<inter> {0..<6} = {}
   \<and> (6::nat) = 6
   \<and> dereference (6 + 1) (snd (detail_binary_search_vector 0 6 6 9 6 (<) lbf id in_place))
       = id (lbf 0 6 (dereference (6 + 1) in_place) (<) in_place)
   \<and> lbf 0 6 (dereference (6 + 1) in_place) (<) in_place = 1"
proof -
  have valid: "(0::nat) \<le> 6" by simp
  have read_only: "{9..<9 + distance 6 9} \<inter> {0..<6} = {}" by (simp add: distance_def)
  have own_slot: "{9..<9 + distance 6 9} \<inter> {6..<9} = {}" by (simp add: distance_def)
  have i: "1 < distance 6 9" by (simp add: distance_def)
  have lower: "contents 9 12 (snd (detail_binary_search_vector 0 6 6 9 9 (<) lbf id spec_batch))
      = [0, 1, 6]"
    by code_simp
  have upper: "contents 9 12 (snd (detail_binary_search_vector 0 6 6 9 9 (<) ubf id spec_batch))
      = [0, 4, 6]"
    by code_simp
  have member: "contents 9 12 (snd (detail_binary_search_vector 0 6 6 9 9 (<) bsf of_bool spec_batch))
      = [0, 1, 0]"
    by code_simp
  have read_only': "{6..<6 + distance 6 9} \<inter> {0..<6} = {}" by (simp add: distance_def)
  have same: "(6::nat) = 6" by simp
  have second: "lbf 0 6 (dereference (6 + 1) in_place) (<) in_place = 1" by code_simp
  note contract = batch_dispatcher_contract [OF valid read_only disjI2 [OF own_slot] i,
      where cmp = "(<)" and encn = id and encb = of_bool and mem = spec_batch]
  note contract' = batch_dispatcher_contract [OF valid read_only' disjI1 [OF same] i,
      where cmp = "(<)" and encn = id and encb = of_bool and mem = in_place]
  from valid read_only own_slot i contract [THEN conjunct1] lower upper member
    read_only' same contract' [THEN conjunct1] second
  show ?thesis by - (intro conjI; assumption)
qed

text \<open>
  Claim C2. The scalar and the batch forms agree. Take a valid sequence range that lies
  below the allocation frontier, so that the temporaries of the scalar form are fresh,
  and a one-element batch that holds the value \<open>val\<close>, with its output cell anywhere.
  The scalar \<open>lower_bound\<close> and \<open>upper_bound\<close> return the position whose offset from
  \<open>bgn\<close> is entry 0 of the output of the batch form, and the scalar \<open>binary_search\<close>
  returns entry 0 of the output of the batch form; the entry is read at the result
  type. The last part is the implementation: the scalar form runs the batch dispatcher
  on a batch of length one, the value in one temporary and the result in the other.
\<close>

theorem scalar_agrees_with_batch:
  assumes valid: "bgn \<le> fin" and fresh: "fin \<le> brk mem" and query: "dereference vb mem = val"
  shows "fst (lower_bound bgn fin val cmp encn decn mem)
           = bgn + decn (dereference out (snd (lower_bound_vector bgn fin vb (vb + 1) out cmp encn mem)))
       \<and> fst (upper_bound bgn fin val cmp encn decn mem)
           = bgn + decn (dereference out (snd (upper_bound_vector bgn fin vb (vb + 1) out cmp encn mem)))
       \<and> fst (binary_search bgn fin val cmp encb decb mem)
           = decb (dereference out (snd (binary_search_vector bgn fin vb (vb + 1) out cmp encb mem)))
       \<and> fst (detail_binary_search_scalar bgn fin val cmp func enc dec mem)
           = dec (dereference (brk mem + 1)
               (snd (detail_binary_search_vector bgn fin (brk mem) (brk mem + 1) (brk mem + 1) cmp func enc
                      (assign (brk mem) val (mem\<lparr>brk := brk mem + 2\<rparr>)))))"
proof (intro conjI)
  show "fst (lower_bound bgn fin val cmp encn decn mem)
           = bgn + decn (dereference out (snd (lower_bound_vector bgn fin vb (vb + 1) out cmp encn mem)))"
    using query by (simp add: lower_bound_result [OF fresh] lower_bound_vector_def batch_of_one
        assign_def dereference_def)
  show "fst (upper_bound bgn fin val cmp encn decn mem)
           = bgn + decn (dereference out (snd (upper_bound_vector bgn fin vb (vb + 1) out cmp encn mem)))"
    using query by (simp add: upper_bound_result [OF fresh] upper_bound_vector_def batch_of_one
        assign_def dereference_def)
  show "fst (binary_search bgn fin val cmp encb decb mem)
           = decb (dereference out (snd (binary_search_vector bgn fin vb (vb + 1) out cmp encb mem)))"
    using query by (simp add: binary_search_result [OF valid fresh] binary_search_vector_def batch_of_one
        assign_def dereference_def)
  show "fst (detail_binary_search_scalar bgn fin val cmp func enc dec mem)
           = dec (dereference (brk mem + 1)
               (snd (detail_binary_search_vector bgn fin (brk mem) (brk mem + 1) (brk mem + 1) cmp func enc
                      (assign (brk mem) val (mem\<lparr>brk := brk mem + 2\<rparr>)))))"
    by (simp add: scalar_bridge_unfolded)
qed

text \<open>The first scenario of the spec, on a memory that also holds the batch of the query 3.\<close>

theorem scalar_agrees_with_batch_witness:
  "(0::nat) \<le> 6 \<and> 6 \<le> brk one_query \<and> dereference 6 one_query = 3
   \<and> fst (lower_bound 0 6 3 (<) id id one_query)
       = 0 + id (dereference 7 (snd (lower_bound_vector 0 6 6 (6 + 1) 7 (<) id one_query)))
   \<and> fst (upper_bound 0 6 3 (<) id id one_query)
       = 0 + id (dereference 7 (snd (upper_bound_vector 0 6 6 (6 + 1) 7 (<) id one_query)))
   \<and> fst (binary_search 0 6 3 (<) of_bool (\<lambda>x. x \<noteq> 0) one_query)
       = (\<lambda>x. x \<noteq> 0) (dereference 7 (snd (binary_search_vector 0 6 6 (6 + 1) 7 (<) of_bool one_query)))
   \<and> fst (lower_bound 0 6 3 (<) id id one_query) = 1
   \<and> fst (upper_bound 0 6 3 (<) id id one_query) = 4
   \<and> fst (binary_search 0 6 3 (<) of_bool (\<lambda>x. x \<noteq> 0) one_query) = True"
proof -
  have valid: "(0::nat) \<le> 6" by simp
  have fresh: "6 \<le> brk one_query" by code_simp
  have query: "dereference 6 one_query = 3" by code_simp
  have lower: "fst (lower_bound 0 6 3 (<) id id one_query) = 1" by code_simp
  have upper: "fst (upper_bound 0 6 3 (<) id id one_query) = 4" by code_simp
  have member: "fst (binary_search 0 6 3 (<) of_bool (\<lambda>x. x \<noteq> 0) one_query) = True"
    by code_simp
  note agree = scalar_agrees_with_batch [OF valid fresh query,
      where cmp = "(<)" and encn = id and decn = id and out = 7 and encb = of_bool
        and decb = "\<lambda>x. x \<noteq> 0" and func = lbf and enc = id and dec = id]
  from valid fresh query agree [THEN conjunct1] agree [THEN conjunct2, THEN conjunct1]
    agree [THEN conjunct2, THEN conjunct2, THEN conjunct1] lower upper member
  show ?thesis by - (intro conjI; assumption)
qed

text \<open>
  Claim C3. On a valid range sorted with respect to a strict weak ordering, the
  membership operation \<open>bsf\<close> answers true for a query exactly when the lower bound
  and the upper bound of the query differ. Sortedness is the condition under which the
  search primitive meets its contract; the proof itself rests on the contract and on
  the asymmetry of the ordering. The same holds of the scalar entry points
  \<open>binary_search\<close>, \<open>lower_bound\<close> and \<open>upper_bound\<close>, when the sequence lies below the
  allocation frontier and a result read back from a temporary is the result stored.
\<close>

theorem membership_iff_bounds_differ:
  assumes swo: "strict_weak_ordering cmp" and le: "bgn \<le> fin"
    and srt: "sorted_range bgn fin cmp mem"
  shows "(bsf bgn fin val cmp mem \<longleftrightarrow> lbf bgn fin val cmp mem \<noteq> ubf bgn fin val cmp mem)
     \<and> (fin \<le> brk mem \<and> (\<forall>r. decn (encn r) = r) \<and> (\<forall>b. decb (encb b) = b) \<longrightarrow>
          (fst (binary_search bgn fin val cmp encb decb mem) \<longleftrightarrow>
             fst (lower_bound bgn fin val cmp encn decn mem)
               \<noteq> fst (upper_bound bgn fin val cmp encn decn mem)))"
proof -
  let ?l = "scalar_lower_bound bgn fin val cmp mem"
  let ?u = "scalar_upper_bound bgn fin val cmp mem"
  have l: "bgn \<le> ?l" "?l \<le> fin" using le by (simp_all add: scalar_lower_bound_bounds)
  have u: "bgn \<le> ?u" "?u \<le> fin" using le by (simp_all add: scalar_upper_bound_bounds)
  have lu: "?l \<le> ?u" using swo le by (rule lower_le_upper)
  have offsets: "lbf bgn fin val cmp mem \<noteq> ubf bgn fin val cmp mem \<longleftrightarrow> ?l < ?u"
    using l u lu by (auto simp: lbf_def ubf_def)
  have "(?l \<noteq> fin \<and> \<not> cmp val (dereference ?l mem)) \<longleftrightarrow> ?l < ?u"
  proof
    assume found: "?l \<noteq> fin \<and> \<not> cmp val (dereference ?l mem)"
    show "?l < ?u"
    proof (rule ccontr)
      assume "\<not> ?l < ?u"
      with lu have same: "?u = ?l" by simp
      with found l have "?u < fin" by simp
      then have "cmp val (dereference ?u mem)" by (rule scalar_upper_bound_at)
      with same found show False by simp
    qed
  next
    assume less: "?l < ?u"
    with u have "?l \<noteq> fin" by simp
    moreover from l(1) less have "\<not> cmp val (dereference ?l mem)"
      by (rule scalar_upper_bound_before)
    ultimately show "?l \<noteq> fin \<and> \<not> cmp val (dereference ?l mem)" by simp
  qed
  with offsets have operations:
    "bsf bgn fin val cmp mem \<longleftrightarrow> lbf bgn fin val cmp mem \<noteq> ubf bgn fin val cmp mem"
    by (simp add: bsf_def Let_def)
  have "fst (binary_search bgn fin val cmp encb decb mem) \<longleftrightarrow>
      fst (lower_bound bgn fin val cmp encn decn mem) \<noteq> fst (upper_bound bgn fin val cmp encn decn mem)"
    if fresh: "fin \<le> brk mem" and offs: "\<forall>r. decn (encn r) = r" and flags: "\<forall>b. decb (encb b) = b"
    using operations offs flags
    by (simp add: binary_search_result [OF le fresh] lower_bound_result [OF fresh]
        upper_bound_result [OF fresh])
  with operations show ?thesis by blast
qed

text \<open>
  The first two scenarios of the spec: the query 3 in the sequence 1, 3, 3, 3, 5, 7 is
  a member and its bounds 1 and 4 differ; the query 4 is no member and its bounds are
  both 4.
\<close>

theorem membership_iff_bounds_differ_witness:
  "strict_weak_ordering ((<) :: nat \<Rightarrow> nat \<Rightarrow> bool) \<and> (0::nat) \<le> 6
   \<and> sorted_range 0 6 (<) spec_sequence
   \<and> 6 \<le> brk spec_sequence \<and> (\<forall>r::nat. id (id r) = r) \<and> (\<forall>b. (of_bool b \<noteq> (0::nat)) = b)
   \<and> (bsf 0 6 3 (<) spec_sequence \<longleftrightarrow>
        lbf 0 6 3 (<) spec_sequence \<noteq> ubf 0 6 3 (<) spec_sequence)
   \<and> (fst (binary_search 0 6 3 (<) of_bool (\<lambda>x. x \<noteq> 0) spec_sequence) \<longleftrightarrow>
        fst (lower_bound 0 6 3 (<) id id spec_sequence)
          \<noteq> fst (upper_bound 0 6 3 (<) id id spec_sequence))
   \<and> bsf 0 6 3 (<) spec_sequence = True
   \<and> lbf 0 6 3 (<) spec_sequence = 1 \<and> ubf 0 6 3 (<) spec_sequence = 4
   \<and> bsf 0 6 4 (<) spec_sequence = False
   \<and> lbf 0 6 4 (<) spec_sequence = 4 \<and> ubf 0 6 4 (<) spec_sequence = 4"
proof -
  have swo: "strict_weak_ordering ((<) :: nat \<Rightarrow> nat \<Rightarrow> bool)"
    by (rule less_strict_weak_ordering)
  have le: "(0::nat) \<le> 6" by simp
  have srt: "sorted_range 0 6 (<) spec_sequence" by code_simp
  have fresh: "6 \<le> brk spec_sequence" by code_simp
  have offs: "\<forall>r::nat. id (id r) = r" by simp
  have flags: "\<forall>b. (of_bool b \<noteq> (0::nat)) = b" by simp
  have three: "bsf 0 6 3 (<) spec_sequence = True" "lbf 0 6 3 (<) spec_sequence = 1"
    "ubf 0 6 3 (<) spec_sequence = 4" by code_simp+
  have four: "bsf 0 6 4 (<) spec_sequence = False" "lbf 0 6 4 (<) spec_sequence = 4"
    "ubf 0 6 4 (<) spec_sequence = 4" by code_simp+
  note differ = membership_iff_bounds_differ [OF swo le srt,
      where val = 3 and encn = id and decn = id and encb = of_bool and decb = "\<lambda>x. x \<noteq> 0"]
  note entry = differ [THEN conjunct2, rule_format, OF conjI [OF fresh conjI [OF offs flags]]]
  from swo le srt fresh offs flags differ [THEN conjunct1] entry three four
  show ?thesis by - (intro conjI; assumption)
qed

text \<open>
  Claim C4. The membership operation takes \<open>i\<close>, the lower bound of the query, and
  answers true exactly when \<open>i\<close> is within the bounds of the sequence and the
  comparator orders the query and the element at position \<open>i\<close> in neither direction.
  The source tests that the query is not before the element; that the element is not
  before the query holds at every lower bound within the bounds.
\<close>

theorem membership_computation:
  assumes le: "bgn \<le> fin"
  shows "bsf bgn fin val cmp mem \<longleftrightarrow>
     (let i = lbf bgn fin val cmp mem
      in i < distance bgn fin \<and> \<not> cmp (dereference (bgn + i) mem) val
         \<and> \<not> cmp val (dereference (bgn + i) mem))"
proof -
  let ?l = "scalar_lower_bound bgn fin val cmp mem"
  have l: "bgn \<le> ?l" "?l \<le> fin" using le by (simp_all add: scalar_lower_bound_bounds)
  then have pos: "bgn + lbf bgn fin val cmp mem = ?l" by (simp add: lbf_def)
  have inb: "lbf bgn fin val cmp mem < distance bgn fin \<longleftrightarrow> ?l \<noteq> fin"
    using l by (auto simp: lbf_def distance_def)
  have "?l \<noteq> fin \<Longrightarrow> \<not> cmp (dereference ?l mem) val"
    using l(2) by (simp add: scalar_lower_bound_at)
  with pos inb show ?thesis by (auto simp: bsf_def Let_def)
qed

text \<open>
  The first two scenarios of the spec: 3 is a member, 4 is not.
\<close>

theorem membership_computation_witness:
  "(0::nat) \<le> 6
   \<and> (bsf 0 6 3 (<) spec_sequence \<longleftrightarrow>
       (let i = lbf 0 6 3 (<) spec_sequence
        in i < distance 0 6
           \<and> \<not> dereference (0 + i) spec_sequence < 3
           \<and> \<not> 3 < dereference (0 + i) spec_sequence))
   \<and> bsf 0 6 3 (<) spec_sequence = True
   \<and> bsf 0 6 4 (<) spec_sequence = False"
proof -
  have valid: "(0::nat) \<le> 6" by simp
  have three: "bsf 0 6 3 (<) spec_sequence = True" by code_simp
  have four: "bsf 0 6 4 (<) spec_sequence = False" by code_simp
  from valid three four
    membership_computation [OF valid,
      where val = 3 and cmp = "(<)" and mem = spec_sequence]
  show ?thesis by - (intro conjI; (elim conjE)?; assumption)
qed

text \<open>
  Claim C5. \<open>equal_range\<close> returns the pair of the results of \<open>lower_bound\<close> and of
  \<open>upper_bound\<close> on the same sequence, value and comparator: two searches, the second
  on the memory the first one leaves, which differs in the released temporaries only.
  The sequence lies below the allocation frontier, so that the temporaries are fresh.
  The pair is the pair of the positions of the lower and the upper bound, each stored
  and read back at the offset type.
\<close>

theorem equal_range_is_lower_and_upper:
  assumes fresh: "lst \<le> brk mem"
  shows "fst (equal_range first lst val cmp enc dec mem)
           = (fst (lower_bound first lst val cmp enc dec mem),
              fst (upper_bound first lst val cmp enc dec mem))
       \<and> fst (equal_range first lst val cmp enc dec mem)
           = (first + dec (enc (lbf first lst val cmp mem)), first + dec (enc (ubf first lst val cmp mem)))"
proof -
  let ?mem1 = "snd (lower_bound first lst val cmp enc dec mem)"
  have brk1: "brk ?mem1 = brk mem" by (simp add: lower_bound_result [OF fresh])
  then have fresh1: "lst \<le> brk ?mem1" using fresh by simp
  have same: "cells ?mem1 p = cells mem p" if "p < lst" for p
    using that fresh by (simp add: lower_bound_result [OF fresh])
  have "ubf first lst val cmp ?mem1 = ubf first lst val cmp mem"
    using ubf_sequence_only by (rule sequence_onlyD) (rule same)
  then have second: "fst (upper_bound first lst val cmp enc dec ?mem1)
      = fst (upper_bound first lst val cmp enc dec mem)"
    by (simp add: upper_bound_result [OF fresh1] upper_bound_result [OF fresh])
  have "fst (equal_range first lst val cmp enc dec mem)
      = (fst (lower_bound first lst val cmp enc dec mem), fst (upper_bound first lst val cmp enc dec ?mem1))"
    by (simp add: equal_range_def Let_def split_beta)
  with second have pair: "fst (equal_range first lst val cmp enc dec mem)
      = (fst (lower_bound first lst val cmp enc dec mem), fst (upper_bound first lst val cmp enc dec mem))"
    by simp
  then show ?thesis by (simp add: lower_bound_result [OF fresh] upper_bound_result [OF fresh])
qed

text \<open>
  The first two scenarios of the spec: the equal range of 3 is (1, 4), that of 4 is
  (4, 4).
\<close>

theorem equal_range_is_lower_and_upper_witness:
  "6 \<le> brk spec_sequence
   \<and> fst (equal_range 0 6 3 (<) id id spec_sequence)
       = (fst (lower_bound 0 6 3 (<) id id spec_sequence),
          fst (upper_bound 0 6 3 (<) id id spec_sequence))
   \<and> fst (equal_range 0 6 3 (<) id id spec_sequence) = (1, 4)
   \<and> fst (equal_range 0 6 4 (<) id id spec_sequence) = (4, 4)"
proof -
  have fresh: "6 \<le> brk spec_sequence"
    by code_simp
  have three: "fst (equal_range 0 6 3 (<) id id spec_sequence) = (1, 4)"
    by code_simp
  have four: "fst (equal_range 0 6 4 (<) id id spec_sequence) = (4, 4)"
    by code_simp
  from fresh three four
    equal_range_is_lower_and_upper [OF fresh,
      where first = 0 and val = 3 and cmp = "(<)" and enc = id and dec = id]
  show ?thesis by - (intro conjI; (elim conjE)?; assumption)
qed

text \<open>
  Claim C6. On an empty sequence (\<^verbatim>\<open>begin == end\<close>) the lower and the upper bound
  of every query are the begin position, at offset 0, and membership is false, whatever
  the comparator and the memory. The scalar entry points return the begin position
  advanced by the stored offset 0, and the stored truth value false.
\<close>

theorem empty_sequence:
  "scalar_lower_bound bgn bgn val cmp mem = bgn \<and> scalar_upper_bound bgn bgn val cmp mem = bgn
   \<and> lbf bgn bgn val cmp mem = 0 \<and> ubf bgn bgn val cmp mem = 0
   \<and> bsf bgn bgn val cmp mem = False
   \<and> fst (lower_bound bgn bgn val cmp encn decn mem) = bgn + decn (encn 0)
   \<and> fst (upper_bound bgn bgn val cmp encn decn mem) = bgn + decn (encn 0)
   \<and> fst (binary_search bgn bgn val cmp encb decb mem) = decb (encb False)"
proof -
  have ops: "lbf bgn bgn v cmp m = 0" "ubf bgn bgn v cmp m = 0" "bsf bgn bgn v cmp m = False"
    for v :: 'a and m
    by (simp_all add: scalar_lower_bound_def scalar_upper_bound_def lbf_def ubf_def bsf_def
        distance_def)
  show ?thesis
    by (simp add: ops lower_bound_def upper_bound_def binary_search_def scalar_bridge_unfolded
        batch_of_one assign_def dereference_def)
      (simp add: scalar_lower_bound_def scalar_upper_bound_def distance_def)
qed

text \<open>
  Claim C7. On a valid range sorted with respect to a strict weak ordering, the
  distance from the lower bound of a query to its upper bound is the number \<open>k\<close> of
  elements equivalent to the query, and these elements are exactly the ones at the
  positions from the lower bound up to the upper bound, the latter excluded: the lower
  bound is the first position of the run and the upper bound the position just past
  its last element.
\<close>

theorem duplicate_run:
  assumes swo: "strict_weak_ordering cmp" and le: "bgn \<le> fin"
    and srt: "sorted_range bgn fin cmp mem"
  shows "ubf bgn fin val cmp mem - lbf bgn fin val cmp mem
           = length (filter (\<lambda>x. equivalent cmp x val) (contents bgn fin mem))
     \<and> lbf bgn fin val cmp mem \<le> ubf bgn fin val cmp mem
     \<and> ubf bgn fin val cmp mem \<le> distance bgn fin
     \<and> (\<forall>i<distance bgn fin. equivalent cmp (dereference (bgn + i) mem) val \<longleftrightarrow>
           lbf bgn fin val cmp mem \<le> i \<and> i < ubf bgn fin val cmp mem)"
proof -
  let ?l = "scalar_lower_bound bgn fin val cmp mem"
  let ?u = "scalar_upper_bound bgn fin val cmp mem"
  let ?lo = "lbf bgn fin val cmp mem"
  let ?uo = "ubf bgn fin val cmp mem"
  have l: "bgn \<le> ?l" "?l \<le> fin" using le by (simp_all add: scalar_lower_bound_bounds)
  have u: "bgn \<le> ?u" "?u \<le> fin" using le by (simp_all add: scalar_upper_bound_bounds)
  have lu: "?l \<le> ?u" using swo le by (rule lower_le_upper)
  have order: "?lo \<le> ?uo" using lu by (simp add: lbf_def ubf_def)
  have bound: "?uo \<le> distance bgn fin" using u by (simp add: ubf_def distance_def)
  have run: "equivalent cmp (dereference (bgn + i) mem) val \<longleftrightarrow> ?lo \<le> i \<and> i < ?uo"
    if "i < distance bgn fin" for i
  proof -
    from that have "bgn \<le> bgn + i" "bgn + i < fin" by (simp_all add: distance_def)
    with swo le srt have "equivalent cmp (dereference (bgn + i) mem) val \<longleftrightarrow>
        ?l \<le> bgn + i \<and> bgn + i < ?u" by (rule equivalent_positions)
    also have "\<dots> \<longleftrightarrow> ?lo \<le> i \<and> i < ?uo" using l u by (auto simp: lbf_def ubf_def)
    finally show ?thesis .
  qed
  have "length (filter (\<lambda>x. equivalent cmp x val) (contents bgn fin mem))
          = card {i. i < distance bgn fin \<and> equivalent cmp (contents bgn fin mem ! i) val}"
    by (simp add: length_filter_conv_card length_contents)
  also have "{i. i < distance bgn fin \<and> equivalent cmp (contents bgn fin mem ! i) val} = {?lo..<?uo}"
    using run bound by (auto simp: contents_nth)
  finally have count: "?uo - ?lo = length (filter (\<lambda>x. equivalent cmp x val) (contents bgn fin mem))"
    by simp
  from count order bound run show ?thesis by blast
qed

text \<open>
  The first scenario of the spec: the run of three elements 3 lies between the lower
  bound 1 and the upper bound 4.
\<close>

theorem duplicate_run_witness:
  "strict_weak_ordering ((<) :: nat \<Rightarrow> nat \<Rightarrow> bool) \<and> (0::nat) \<le> 6
   \<and> sorted_range 0 6 (<) spec_sequence
   \<and> ubf 0 6 3 (<) spec_sequence
        - lbf 0 6 3 (<) spec_sequence
       = length (filter (\<lambda>x. equivalent (<) x 3) (contents 0 6 spec_sequence))
   \<and> length (filter (\<lambda>x. equivalent (<) x 3) (contents 0 6 spec_sequence)) = 3
   \<and> lbf 0 6 3 (<) spec_sequence = 1
   \<and> ubf 0 6 3 (<) spec_sequence = 4"
proof -
  have swo: "strict_weak_ordering ((<) :: nat \<Rightarrow> nat \<Rightarrow> bool)"
    by (rule less_strict_weak_ordering)
  have valid: "(0::nat) \<le> 6" by simp
  have srt: "sorted_range 0 6 (<) spec_sequence" by code_simp
  have run: "length (filter (\<lambda>x. equivalent (<) x 3)
      (contents 0 6 spec_sequence)) = 3" by code_simp
  have lower: "lbf 0 6 3 (<) spec_sequence = 1" by code_simp
  have upper: "ubf 0 6 3 (<) spec_sequence = 4" by code_simp
  from swo valid srt run lower upper duplicate_run [OF swo valid srt, where val = 3]
  show ?thesis by - (intro conjI; (elim conjE)?; assumption)
qed




text \<open>
  Claim C9, as amended. A batch call writes the \<open>N\<close> entries of the output buffer and
  nothing else: every cell outside the output range, and the allocation frontier, are
  as before the call, whatever the operation. So the sequence is unchanged when the
  output range does not meet it, and the queries are unchanged when the output range
  does not meet them. A batch of no queries leaves the whole memory as it was, the
  output buffer included.
\<close>

theorem batch_frame_property:
  "(\<forall>p. \<not> (output \<le> p \<and> p < output + distance values_begin values_end) \<longrightarrow>
        dereference p (snd (detail_binary_search_vector bgn fin values_begin values_end output cmp func enc mem))
          = dereference p mem)
   \<and> brk (snd (detail_binary_search_vector bgn fin values_begin values_end output cmp func enc mem)) = brk mem
   \<and> ({output..<output + distance values_begin values_end} \<inter> {bgn..<fin} = {} \<longrightarrow>
        contents bgn fin (snd (detail_binary_search_vector bgn fin values_begin values_end output cmp func enc mem))
          = contents bgn fin mem)
   \<and> ({output..<output + distance values_begin values_end} \<inter> {values_begin..<values_end} = {} \<longrightarrow>
        contents values_begin values_end
            (snd (detail_binary_search_vector bgn fin values_begin values_end output cmp func enc mem))
          = contents values_begin values_end mem)
   \<and> (distance values_begin values_end = 0 \<longrightarrow>
        snd (detail_binary_search_vector bgn fin values_begin values_end output cmp func enc mem) = mem)"
proof -
  let ?n = "distance values_begin values_end"
  let ?mem' = "snd (detail_binary_search_vector bgn fin values_begin values_end output cmp func enc mem)"
  have frame: "dereference p ?mem' = dereference p mem" if "\<not> (output \<le> p \<and> p < output + ?n)" for p
    using that by (simp add: dereference_def batch_frame)
  have frontier: "brk ?mem' = brk mem"
    by (rule batch_brk)
  have range_kept: "contents a b ?mem' = contents a b mem" if "{output..<output + ?n} \<inter> {a..<b} = {}" for a b
    unfolding contents_def
  proof (rule map_cong [OF refl])
    fix p assume "p \<in> set [a..<b]"
    with that have "p \<notin> {output..<output + ?n}" by auto
    then show "dereference p ?mem' = dereference p mem" by (intro frame) simp
  qed
  show ?thesis
  proof (intro conjI allI impI)
    fix p assume "\<not> (output \<le> p \<and> p < output + ?n)"
    then show "dereference p ?mem' = dereference p mem" by (rule frame)
  next
    show "brk ?mem' = brk mem" by (rule frontier)
  next
    assume "{output..<output + ?n} \<inter> {bgn..<fin} = {}"
    then show "contents bgn fin ?mem' = contents bgn fin mem" by (rule range_kept)
  next
    assume "{output..<output + ?n} \<inter> {values_begin..<values_end} = {}"
    then show "contents values_begin values_end ?mem' = contents values_begin values_end mem"
      by (rule range_kept)
  next
    assume "?n = 0"
    then show "?mem' = mem"
      by (simp add: detail_binary_search_vector_def zip_range_eq for_each_def)
  qed
qed

text \<open>
  The fifth scenario of the spec, with the output behind the queries, and the same call
  on no queries.
\<close>

theorem batch_frame_property_witness:
  "{9..<9 + distance 6 9} \<inter> {0..<6} = {}
   \<and> {9..<9 + distance 6 9} \<inter> {6..<9} = {}
   \<and> \<not> (9 \<le> (3::nat) \<and> 3 < 9 + distance 6 9)
   \<and> dereference 3 (snd (detail_binary_search_vector 0 6 6 9 9 (<) lbf id spec_batch))
       = dereference 3 spec_batch
   \<and> contents 0 6 (snd (detail_binary_search_vector 0 6 6 9 9 (<) lbf id spec_batch))
       = contents 0 6 spec_batch
   \<and> contents 6 9 (snd (detail_binary_search_vector 0 6 6 9 9 (<) lbf id spec_batch))
       = contents 6 9 spec_batch
   \<and> distance 6 6 = 0
   \<and> snd (detail_binary_search_vector 0 6 6 6 9 (<) lbf id spec_batch)
       = spec_batch"
proof -
  have seq: "{9..<9 + distance 6 9} \<inter> {0..<6} = {}" by (simp add: distance_def)
  have qry: "{9..<9 + distance 6 9} \<inter> {6..<9} = {}" by (simp add: distance_def)
  have outside: "\<not> (9 \<le> (3::nat) \<and> 3 < 9 + distance 6 9)" by simp
  have none: "distance 6 6 = 0" by (simp add: distance_def)
  note full = batch_frame_property [of 9 6 9 0 6 "(<)" lbf id spec_batch]
  note empty = batch_frame_property [of 9 6 6 0 6 "(<)" lbf id spec_batch]
  note cell = full [THEN conjunct1, rule_format, OF outside]
  note seq_kept = full [THEN conjunct2, THEN conjunct2, THEN conjunct1, rule_format, OF seq]
  note qry_kept =
    full [THEN conjunct2, THEN conjunct2, THEN conjunct2, THEN conjunct1, rule_format, OF qry]
  note untouched =
    empty [THEN conjunct2, THEN conjunct2, THEN conjunct2, THEN conjunct2, rule_format, OF none]
  from seq qry outside cell seq_kept qry_kept none untouched
  show ?thesis by - (intro conjI; assumption)
qed

text \<open>
  The claim as the spec states it has no condition on where the output lies. The
  source takes any output iterator, and a call in place, with the output on the queries
  themselves, meets the conditions of the first claim: the sequence is not written, and
  every invocation reads its own query and writes its own slot, so that the order of
  the invocations does not matter. It overwrites the queries 0, 3, 8 with their lower
  bounds 0, 1, 6.
\<close>

theorem in_place_batch_overwrites_queries:
  "contents 6 9 in_place = [0, 3, 8]
   \<and> contents 6 9 (snd (lower_bound_vector 0 6 6 9 6 (<) id in_place)) = [0, 1, 6]
   \<and> contents 6 9 (snd (lower_bound_vector 0 6 6 9 6 (<) id in_place))
       \<noteq> contents 6 9 in_place"
proof -
  have before: "contents 6 9 in_place = [0, 3, 8]" by code_simp
  have after: "contents 6 9 (snd (lower_bound_vector 0 6 6 9 6 (<) id in_place)) = [0, 1, 6]"
    by code_simp
  show ?thesis unfolding before after by simp
qed

text \<open>
  Claim C10. Every batch entry point, with a comparator or without, returns the output
  iterator advanced by the number of queries, one past the last result written; on a
  batch of no queries it returns the output iterator itself.
\<close>

theorem batch_returns_end_of_output:
  "fst (lower_bound_vector bgn fin values_begin values_end output cmp encn mem)
      = output + distance values_begin values_end
   \<and> fst (upper_bound_vector bgn fin values_begin values_end output cmp encn mem)
      = output + distance values_begin values_end
   \<and> fst (binary_search_vector bgn fin values_begin values_end output cmp encb mem)
      = output + distance values_begin values_end
   \<and> fst (lower_bound_vector_default bgn fin values_begin values_end output to_ValueType en m)
      = output + distance values_begin values_end
   \<and> fst (upper_bound_vector_default bgn fin values_begin values_end output to_ValueType en m)
      = output + distance values_begin values_end
   \<and> fst (binary_search_vector_default bgn fin values_begin values_end output to_ValueType eb m)
      = output + distance values_begin values_end
   \<and> fst (lower_bound_vector bgn fin values_begin values_begin output cmp encn mem) = output
   \<and> fst (upper_bound_vector bgn fin values_begin values_begin output cmp encn mem) = output
   \<and> fst (binary_search_vector bgn fin values_begin values_begin output cmp encb mem) = output
   \<and> fst (lower_bound_vector_default bgn fin values_begin values_begin output to_ValueType en m) = output
   \<and> fst (upper_bound_vector_default bgn fin values_begin values_begin output to_ValueType en m) = output
   \<and> fst (binary_search_vector_default bgn fin values_begin values_begin output to_ValueType eb m) = output"
  by (simp add: lower_bound_vector_def upper_bound_vector_def binary_search_vector_def
      lower_bound_vector_default_def upper_bound_vector_default_def
      binary_search_vector_default_def detail_binary_search_vector_def distance_def)

end
